theory Spec2Isabelle
  imports Main "HOL-Library.Sublist"
begin

section \<open>JavaScript strings and values\<close>

text \<open>
  A JavaScript string is a sequence of UTF-16 code units; \<open>length\<close>, \<open>trim\<close> and the
  regular expressions of \<open>parseJSON\<close> all count code units. A code unit is modelled as a
  natural number, a string as the list of its code units, and \<open>js\<close> turns a literal
  into that list.
\<close>

type_synonym jsstring = "nat list"

abbreviation ch :: "char \<Rightarrow> nat" where
  "ch c \<equiv> of_char c"

definition js :: "string \<Rightarrow> jsstring" where
  "js s = map of_char s"

text \<open>
  The class \<open>\s\<close> of a regular expression and the characters \<open>String.prototype.trim\<close>
  removes are the same set: WhiteSpace and LineTerminator of ECMAScript (TAB, LF, VT,
  FF, CR, SP, NBSP, U+1680, U+2000 to U+200A, LS, PS, U+202F, U+205F, U+3000, U+FEFF).
\<close>

definition is_space :: "nat \<Rightarrow> bool" where
  "is_space c =
     (c = 9 \<or> c = 10 \<or> c = 11 \<or> c = 12 \<or> c = 13 \<or> c = 32 \<or> c = 160 \<or> c = 5760
      \<or> (8192 \<le> c \<and> c \<le> 8202) \<or> c = 8232 \<or> c = 8233 \<or> c = 8239 \<or> c = 8287
      \<or> c = 12288 \<or> c = 65279)"

text \<open>\<open>s.trim()\<close>\<close>

definition trim :: "jsstring \<Rightarrow> jsstring" where
  "trim s = rev (dropWhile is_space (rev (dropWhile is_space s)))"

text \<open>
  The values a JSON document denotes. A number is kept as the text of its token (the
  double it denotes is not computed); an object is the list of its own properties in the
  order \<open>Object.entries\<close> enumerates them. \<open>undefined\<close> is not a JSON value: a value
  that may be \<open>undefined\<close> is a \<open>json option\<close>.
\<close>

datatype json =
    JNull
  | JBool bool
  | JNum jsstring
  | JStr jsstring
  | JArr "json list"
  | JObj "(jsstring \<times> json) list"

datatype error = SyntaxError | TypeError

text \<open>
  Property order of an ordinary object: the array-index keys (canonical decimal
  integers up to \<open>2^32 - 2\<close>) in ascending numeric order first, then every other string
  key in the order of creation. Assigning to an existing key keeps its place.
\<close>

definition is_digit :: "nat \<Rightarrow> bool" where
  "is_digit c = (48 \<le> c \<and> c \<le> 57)"

definition digits_val :: "jsstring \<Rightarrow> nat" where
  "digits_val k = foldl (\<lambda>a c. 10 * a + (c - 48)) 0 k"

definition is_array_index :: "jsstring \<Rightarrow> bool" where
  "is_array_index k =
     (k \<noteq> [] \<and> list_all is_digit k \<and> (hd k \<noteq> 48 \<or> length k = 1)
      \<and> digits_val k \<le> 4294967294)"

fun insert_index :: "jsstring \<Rightarrow> json \<Rightarrow> (jsstring \<times> json) list \<Rightarrow> (jsstring \<times> json) list" where
  "insert_index k v [] = [(k, v)]"
| "insert_index k v ((k', v') # kvs) =
     (if is_array_index k' \<and> digits_val k' < digits_val k
      then (k', v') # insert_index k v kvs
      else (k, v) # (k', v') # kvs)"

definition js_set :: "jsstring \<Rightarrow> json \<Rightarrow> (jsstring \<times> json) list \<Rightarrow> (jsstring \<times> json) list" where
  "js_set k v kvs =
     (if k \<in> fst ` set kvs then map (\<lambda>(k', v'). if k' = k then (k', v) else (k', v')) kvs
      else if is_array_index k then insert_index k v kvs
      else kvs @ [(k, v)])"

section \<open>The JSON grammar\<close>

text \<open>
  Tokens of a JSON text. A string or a bare word (a literal or a number) that the end of
  the input cuts short is a token of its own kind, so that the strict and the tolerant
  parser can treat it differently.
\<close>

datatype token =
    TLBrace | TRBrace | TLBrack | TRBrack | TColon | TComma
  | TString jsstring
  | TWord jsstring
  | TCutString jsstring
  | TCutWord jsstring
  | TBad

datatype lexmode =
    Ready
  | InString jsstring
  | InEscape jsstring
  | InUnicode jsstring jsstring
  | InWord jsstring
  | Failed

definition is_json_ws :: "nat \<Rightarrow> bool" where
  "is_json_ws c = (c = 32 \<or> c = 9 \<or> c = 10 \<or> c = 13)"

definition is_word_char :: "nat \<Rightarrow> bool" where
  "is_word_char c =
     (is_digit c \<or> (65 \<le> c \<and> c \<le> 90) \<or> (97 \<le> c \<and> c \<le> 122)
      \<or> c = ch CHR ''-'' \<or> c = ch CHR ''+'' \<or> c = ch CHR ''.'')"

definition hex_val :: "nat \<Rightarrow> nat option" where
  "hex_val c =
     (if is_digit c then Some (c - 48)
      else if 65 \<le> c \<and> c \<le> 70 then Some (c - 55)
      else if 97 \<le> c \<and> c \<le> 102 then Some (c - 87)
      else None)"

definition unescape :: "nat \<Rightarrow> nat option" where
  "unescape c =
     (if c = ch CHR ''\"'' \<or> c = ch CHR 0x5C \<or> c = ch CHR ''/'' then Some c
      else if c = ch CHR ''b'' then Some 8
      else if c = ch CHR ''f'' then Some 12
      else if c = ch CHR ''n'' then Some 10
      else if c = ch CHR ''r'' then Some 13
      else if c = ch CHR ''t'' then Some 9
      else None)"

text \<open>
  The lexer reads one code unit at a time: \<open>lex_char\<close> gives the tokens the code unit
  completes and the mode for the next one, \<open>lex_end\<close> the token the end of the input
  leaves. After an invalid code unit (\<open>TBad\<close>) nothing more is read.
\<close>

definition ready_char :: "nat \<Rightarrow> token list \<times> lexmode" where
  "ready_char c =
     (if is_json_ws c then ([], Ready)
      else if c = ch CHR ''{'' then ([TLBrace], Ready)
      else if c = ch CHR ''}'' then ([TRBrace], Ready)
      else if c = ch CHR ''['' then ([TLBrack], Ready)
      else if c = ch CHR '']'' then ([TRBrack], Ready)
      else if c = ch CHR '':'' then ([TColon], Ready)
      else if c = ch CHR '','' then ([TComma], Ready)
      else if c = ch CHR ''\"'' then ([], InString [])
      else if is_word_char c then ([], InWord [c])
      else ([TBad], Failed))"

fun lex_char :: "lexmode \<Rightarrow> nat \<Rightarrow> token list \<times> lexmode" where
  "lex_char Ready c = ready_char c"
| "lex_char (InString acc) c =
     (if c = ch CHR ''\"'' then ([TString (rev acc)], Ready)
      else if c = ch CHR 0x5C then ([], InEscape acc)
      else if c < 32 then ([TBad], Failed)
      else ([], InString (c # acc)))"
| "lex_char (InEscape acc) c =
     (case unescape c of
        Some d \<Rightarrow> ([], InString (d # acc))
      | None \<Rightarrow> if c = ch CHR ''u'' then ([], InUnicode acc []) else ([TBad], Failed))"
| "lex_char (InUnicode acc h) c =
     (case hex_val c of
        None \<Rightarrow> ([TBad], Failed)
      | Some d \<Rightarrow>
          if length h = 3
          then ([], InString (foldl (\<lambda>a x. 16 * a + x) 0 (rev (d # h)) # acc))
          else ([], InUnicode acc (d # h)))"
| "lex_char (InWord acc) c =
     (if is_word_char c then ([], InWord (c # acc))
      else (TWord (rev acc) # fst (ready_char c), snd (ready_char c)))"
| "lex_char Failed c = ([], Failed)"

fun lex_end :: "lexmode \<Rightarrow> token list" where
  "lex_end Ready = []"
| "lex_end (InString acc) = [TCutString (rev acc)]"
| "lex_end (InEscape acc) = [TCutString (rev acc)]"
| "lex_end (InUnicode acc h) = [TCutString (rev acc)]"
| "lex_end (InWord acc) = [TCutWord (rev acc)]"
| "lex_end Failed = []"

fun lex :: "lexmode \<Rightarrow> jsstring \<Rightarrow> token list" where
  "lex m [] = lex_end m"
| "lex m (c # cs) = fst (lex_char m c) @ lex (snd (lex_char m c)) cs"

text \<open>The number token: \<open>-?(0|[1-9][0-9]*)(\.[0-9]+)?([eE][+-]?[0-9]+)?\<close>.\<close>

datatype numstate = N0 | NMinus | NZero | NInt | NDot | NFrac | NE | NESign | NExp | NDead

fun numstep :: "numstate \<Rightarrow> nat \<Rightarrow> numstate" where
  "numstep N0 c =
     (if c = ch CHR ''-'' then NMinus else if c = 48 then NZero
      else if is_digit c then NInt else NDead)"
| "numstep NMinus c = (if c = 48 then NZero else if is_digit c then NInt else NDead)"
| "numstep NZero c =
     (if c = ch CHR ''.'' then NDot
      else if c = ch CHR ''e'' \<or> c = ch CHR ''E'' then NE else NDead)"
| "numstep NInt c =
     (if is_digit c then NInt else if c = ch CHR ''.'' then NDot
      else if c = ch CHR ''e'' \<or> c = ch CHR ''E'' then NE else NDead)"
| "numstep NDot c = (if is_digit c then NFrac else NDead)"
| "numstep NFrac c =
     (if is_digit c then NFrac
      else if c = ch CHR ''e'' \<or> c = ch CHR ''E'' then NE else NDead)"
| "numstep NE c =
     (if c = ch CHR ''+'' \<or> c = ch CHR ''-'' then NESign
      else if is_digit c then NExp else NDead)"
| "numstep NESign c = (if is_digit c then NExp else NDead)"
| "numstep NExp c = (if is_digit c then NExp else NDead)"
| "numstep NDead c = NDead"

definition is_number :: "jsstring \<Rightarrow> bool" where
  "is_number w = (foldl numstep N0 w \<in> {NZero, NInt, NFrac, NExp})"

definition classify :: "jsstring \<Rightarrow> json option" where
  "classify w =
     (if w = js ''null'' then Some JNull
      else if w = js ''true'' then Some (JBool True)
      else if w = js ''false'' then Some (JBool False)
      else if is_number w then Some (JNum w)
      else None)"

text \<open>A word that is a proper beginning of a literal or of a number.\<close>

definition incomplete :: "jsstring \<Rightarrow> bool" where
  "incomplete w =
     (w \<noteq> [] \<and> classify w = None
      \<and> (prefix w (js ''null'') \<or> prefix w (js ''true'') \<or> prefix w (js ''false'')
         \<or> foldl numstep N0 w \<in> {NMinus, NDot, NE, NESign}))"

text \<open>
  The parser is a pushdown automaton over the tokens: the stack holds the containers
  still open, each with the elements completed so far (an object also with the key that
  waits for its value).
\<close>

datatype frame = FArr "json list" | FObj "(jsstring \<times> json) list" "jsstring option"

datatype expect = EValue | EArrFirst | EObjFirst | EKey | EColon | ENext

datatype pstate = Run "frame list" expect | Done json | Bad

fun deliver :: "json \<Rightarrow> frame list \<Rightarrow> pstate" where
  "deliver v [] = Done v"
| "deliver v (FArr es # fs) = Run (FArr (es @ [v]) # fs) ENext"
| "deliver v (FObj kvs (Some k) # fs) = Run (FObj (js_set k v kvs) None # fs) ENext"
| "deliver v (FObj kvs None # fs) = Bad"

definition wants_value :: "expect \<Rightarrow> bool" where
  "wants_value e = (e = EValue \<or> e = EArrFirst)"

definition wants_key :: "expect \<Rightarrow> bool" where
  "wants_key e = (e = EObjFirst \<or> e = EKey)"

fun pstep :: "bool \<Rightarrow> pstate \<Rightarrow> token \<Rightarrow> pstate" where
  "pstep tol (Run fs e) TLBrack = (if wants_value e then Run (FArr [] # fs) EArrFirst else Bad)"
| "pstep tol (Run fs e) TLBrace = (if wants_value e then Run (FObj [] None # fs) EObjFirst else Bad)"
| "pstep tol (Run (FArr es # fs) e) TRBrack =
     (if e = EArrFirst \<or> e = ENext then deliver (JArr es) fs else Bad)"
| "pstep tol (Run (FObj kvs None # fs) e) TRBrace =
     (if e = EObjFirst \<or> e = ENext then deliver (JObj kvs) fs else Bad)"
| "pstep tol (Run (FArr es # fs) e) TComma = (if e = ENext then Run (FArr es # fs) EValue else Bad)"
| "pstep tol (Run (FObj kvs ko # fs) e) TComma =
     (if e = ENext then Run (FObj kvs ko # fs) EKey else Bad)"
| "pstep tol (Run fs e) TColon = (if e = EColon then Run fs EValue else Bad)"
| "pstep tol (Run fs e) (TString s) =
     (if wants_value e then deliver (JStr s) fs
      else if wants_key e then
        (case fs of FObj kvs None # fs' \<Rightarrow> Run (FObj kvs (Some s) # fs') EColon | _ \<Rightarrow> Bad)
      else Bad)"
| "pstep tol (Run fs e) (TWord w) =
     (case classify w of Some v \<Rightarrow> if wants_value e then deliver v fs else Bad | None \<Rightarrow> Bad)"
| "pstep tol (Run fs e) (TCutString s) =
     (if \<not> tol then Bad
      else if wants_value e then deliver (JStr s) fs
      else if wants_key e then Run fs e
      else Bad)"
| "pstep tol (Run fs e) (TCutWord w) =
     (case classify w of
        Some v \<Rightarrow> if wants_value e then deliver v fs else Bad
      | None \<Rightarrow> if tol \<and> incomplete w \<and> wants_value e then Run fs e else Bad)"
| "pstep tol s t = Bad"

fun frame_value :: "frame \<Rightarrow> json" where
  "frame_value (FArr es) = JArr es"
| "frame_value (FObj kvs ko) = JObj kvs"

fun unwind :: "json \<Rightarrow> frame list \<Rightarrow> json" where
  "unwind v [] = v"
| "unwind v (FArr es # fs) = unwind (JArr (es @ [v])) fs"
| "unwind v (FObj kvs (Some k) # fs) = unwind (JObj (js_set k v kvs)) fs"
| "unwind v (FObj kvs None # fs) = unwind (JObj kvs) fs"

text \<open>
  \<open>JSON.parse\<close>, the built-in of the language: the whole text is one complete value,
  anything else is a \<open>SyntaxError\<close>.
\<close>

definition JSON_parse :: "jsstring \<Rightarrow> error + json" where
  "JSON_parse s =
     (case foldl (pstep False) (Run [] EValue) (lex Ready s) of
        Done v \<Rightarrow> Inr v
      | _ \<Rightarrow> Inl SyntaxError)"

text \<open>
  Modelled from the spec: \<open>parse\<close> of the package \<open>best-effort-json-parser\<close>, which
  \<open>json.ts\<close> imports and whose code is not among the sources. The spec describes it as
  a recursive-descent parser over the JSON grammar that accepts any beginning of a valid
  JSON document: at the end of the input an unterminated string is closed where the input
  stops, an incomplete literal or number is left out, every container still open is
  closed with the elements it has, and a key without its value is dropped. A token that
  is invalid (and not merely cut short) is an error, and so is an input from which no
  value at all is recovered.
\<close>

definition parse :: "jsstring \<Rightarrow> error + json" where
  "parse s =
     (case foldl (pstep True) (Run [] EValue) (lex Ready s) of
        Done v \<Rightarrow> Inr v
      | Run [] e \<Rightarrow> Inl SyntaxError
      | Run (f # fs) e \<Rightarrow> Inr (unwind (frame_value f) fs)
      | Bad \<Rightarrow> Inl SyntaxError)"

section \<open>The tolerant decoder (core/utils/json.ts)\<close>

text \<open>
  \<open>s.replace(/^M\s*/, "")\<close> for a literal marker \<open>M\<close>: when the string starts with
  the marker, the marker and the whitespace after it are removed; otherwise the string is
  returned as it is.
\<close>

definition replace_leading :: "jsstring \<Rightarrow> jsstring \<Rightarrow> jsstring" where
  "replace_leading marker s =
     (if prefix marker s then dropWhile is_space (drop (length marker) s) else s)"

text \<open>
  \<open>s.replace(/\s*```$/, "")\<close>: the match is the leftmost one, so it starts where the
  whitespace before the final fence starts.
\<close>

definition replace_trailing :: "jsstring \<Rightarrow> jsstring" where
  "replace_trailing s =
     (if suffix (js ''```'') s
      then rev (dropWhile is_space (rev (take (length s - 3) s)))
      else s)"

definition strip_fences :: "jsstring \<Rightarrow> jsstring" where
  "strip_fences s =
     replace_trailing
       (replace_leading (js ''```'')
         (replace_leading (js ''```plaintext'')
           (replace_leading (js ''```ts'')
             (replace_leading (js ''```js'')
               (replace_leading (js ''```json'') (trim s))))))"



text \<open>The argument \<open>json: string | null | undefined\<close>.\<close>

datatype maybe_string = Undefined | Null | Str jsstring

text \<open>
  \<open>parseJSON\<close>: \<open>!json\<close> holds for \<open>null\<close>, \<open>undefined\<close> and the empty string; the
  \<open>catch\<close> turns every exception of the \<open>try\<close> block into the fallback.
\<close>

fun parseJSON :: "maybe_string \<Rightarrow> json \<Rightarrow> json" where
  "parseJSON Undefined fallback = fallback"
| "parseJSON Null fallback = fallback"
| "parseJSON (Str s) fallback =
     (if s = [] then fallback
      else (case parse (strip_fences s) of Inl e \<Rightarrow> fallback | Inr v \<Rightarrow> v))"


section \<open>Reading a decoded value\<close>

text \<open>
  The truth value of a JSON value in a condition. A number token denotes the double
  nearest to its decimal value \<open>m * 10^up / 10^down\<close> (ties to even), and that double
  is zero exactly when the value is at most \<open>2^-1075\<close>, half of the least positive
  double: \<open>0\<close>, \<open>-0.0\<close> and \<open>1e-400\<close> are zero, \<open>5e-324\<close> is not.
\<close>

definition num_is_zero :: "jsstring \<Rightarrow> bool" where
  "num_is_zero n =
     (let mant = takeWhile (\<lambda>c. c \<noteq> ch CHR ''e'' \<and> c \<noteq> ch CHR ''E'') n;
          ex = drop 1 (dropWhile (\<lambda>c. c \<noteq> ch CHR ''e'' \<and> c \<noteq> ch CHR ''E'') n);
          frac = drop 1 (dropWhile (\<lambda>c. c \<noteq> ch CHR ''.'') mant);
          m = digits_val (filter is_digit mant);
          e = digits_val (filter is_digit ex);
          negative = (ex \<noteq> [] \<and> hd ex = ch CHR ''-'');
          up = (if negative then 0 else e);
          down = length frac + (if negative then e else 0)
      in m * 10 ^ up * 2 ^ 1075 \<le> 10 ^ down)"

fun truthy :: "json \<Rightarrow> bool" where
  "truthy JNull = False"
| "truthy (JBool b) = b"
| "truthy (JNum n) = (\<not> num_is_zero n)"
| "truthy (JStr s) = (s \<noteq> [])"
| "truthy (JArr xs) = True"
| "truthy (JObj kvs) = True"

fun truthy_opt :: "json option \<Rightarrow> bool" where
  "truthy_opt None = False"
| "truthy_opt (Some v) = truthy v"

text \<open>\<open>a ?? d\<close>: the default replaces \<open>undefined\<close> and \<open>null\<close> only.\<close>

fun nullish :: "json option \<Rightarrow> json \<Rightarrow> json" where
  "nullish None d = d"
| "nullish (Some JNull) d = d"
| "nullish (Some v) d = v"

text \<open>
  \<open>v.k\<close> for the property names the components read (\<open>title\<close>, \<open>thought\<close>,
  \<open>steps\<close>, \<open>sections\<close>, \<open>type\<close>, \<open>description\<close>, \<open>audioUrl\<close>, \<open>error\<close>): none
  of them is a property of a string, a number, a boolean, an array or of a prototype, so
  only an object can have it. Reading a property of \<open>null\<close> throws a \<open>TypeError\<close>.
\<close>

fun read_prop :: "json \<Rightarrow> jsstring \<Rightarrow> json option" where
  "read_prop (JObj kvs) k = map_of kvs k"
| "read_prop v k = None"



function decimal :: "nat \<Rightarrow> jsstring" where
  "decimal n = (if n < 10 then [48 + n] else decimal (n div 10) @ [48 + n mod 10])"
  by pat_completeness auto
termination
  by (relation "measure (\<lambda>n. n)") auto

declare decimal.simps [simp del]

text \<open>\<open>Object.entries(v)\<close>\<close>

fun entries :: "json \<Rightarrow> error + (jsstring \<times> json) list" where
  "entries JNull = Inl TypeError"
| "entries (JObj kvs) = Inr kvs"
| "entries (JArr xs) = Inr (zip (map decimal [0..<length xs]) xs)"
| "entries (JStr s) = Inr (zip (map decimal [0..<length s]) (map (\<lambda>c. JStr [c]) s))"
| "entries v = Inr []"

text \<open>
  \<open>xs.map(f)\<close> calls \<open>f\<close> on the elements in order, so the first exception is the
  one thrown.
\<close>

fun map_err :: "('a \<Rightarrow> error + 'b) \<Rightarrow> 'a list \<Rightarrow> error + 'b list" where
  "map_err f [] = Inr []"
| "map_err f (x # xs) =
     (case f x of
        Inl e \<Rightarrow> Inl e
      | Inr y \<Rightarrow> (case map_err f xs of Inl e \<Rightarrow> Inl e | Inr ys \<Rightarrow> Inr (y # ys)))"

text \<open>
  \<open>v.map((x, i) => ...)\<close> on a value that passed a truth test: only an array has a
  \<open>map\<close> method that can be called.
\<close>

definition js_map :: "(nat \<Rightarrow> json \<Rightarrow> error + 'b) \<Rightarrow> json \<Rightarrow> error + 'b list" where
  "js_map f v =
     (case v of
        JArr xs \<Rightarrow> map_err (\<lambda>(i, x). f i x) (enumerate 0 xs)
      | _ \<Rightarrow> Inl TypeError)"

section \<open>Messages and the list item (app/chat/page.tsx)\<close>

text \<open>
  Modelled from the spec: the \<open>Message\<close> record of \<open>~/core/messages\<close>, whose
  declaration is not among the sources (section 3 of the spec: identity, role, optional
  agent tag, raw content, optional reasoning content, streaming flag).
\<close>

datatype role = User | Assistant

record message =
  msg_id :: jsstring
  role :: role
  agent :: "jsstring option"
  content :: jsstring
  reasoningContent :: "jsstring option"
  isStreaming :: bool

text \<open>The element a list item returns; the component named is rendered by React.\<close>

datatype element =
    EPlanCard message
  | EPodcastCard message
  | EOutlineMessage message
  | EEditorTeamMessage message
  | EEvaluatorMessage message
  | EResearchCard jsstring
  | EMessageBubble message

text \<open>
  \<open>MessageListItem\<close>, after its hooks: \<open>researchIds\<close> is the store's list of
  research-session start ids, the last argument the result of \<open>useMessage(messageId)\<close>.
  \<open>None\<close> is the item that renders nothing.
\<close>

definition MessageListItem :: "jsstring list \<Rightarrow> jsstring \<Rightarrow> message option \<Rightarrow> element option" where
  "MessageListItem researchIds messageId m =
     (case m of
        None \<Rightarrow> None
      | Some message \<Rightarrow>
          let startOfResearch = (messageId \<in> set researchIds) in
          if role message = User
             \<or> agent message = Some (js ''coordinator'')
             \<or> agent message = Some (js ''planner'')
             \<or> agent message = Some (js ''podcast'')
             \<or> agent message = Some (js ''feedback_handler'')
             \<or> agent message = Some (js ''generate_questions'')
             \<or> agent message = Some (js ''reporter'')
             \<or> agent message = Some (js ''outline'')
             \<or> agent message = Some (js ''editor_team'')
             \<or> agent message = Some (js ''evaluator'')
             \<or> startOfResearch
          then
            (if agent message = Some (js ''planner'') then Some (EPlanCard message)
             else if agent message = Some (js ''podcast'') then Some (EPodcastCard message)
             else if agent message = Some (js ''outline'') then
               (if content message \<noteq> [] then Some (EOutlineMessage message) else None)
             else if agent message = Some (js ''editor_team'') then
               (if content message \<noteq> [] then Some (EEditorTeamMessage message) else None)
             else if agent message = Some (js ''evaluator'') then
               (if content message \<noteq> [] then Some (EEvaluatorMessage message) else None)
             else if startOfResearch then Some (EResearchCard (msg_id message))
             else if content message \<noteq> [] then Some (EMessageBubble message)
             else None)
          else None)"

section \<open>The podcast card\<close>

datatype podcast_label = GeneratingPodcast | NowPlayingPodcast | PodcastLabel | PodcastError

record podcast_view =
  pv_label :: podcast_label
  pv_download :: "jsstring option"
  pv_title :: "json option"
  pv_audio :: "json option"

text \<open>\<open>data?.k\<close>\<close>

definition opt_prop :: "json \<Rightarrow> jsstring \<Rightarrow> json option" where
  "opt_prop v k = (if v = JNull then None else read_prop v k)"

text \<open>
  \<open>(title ?? "podcast").replaceAll(" ", "-")\<close> followed by \<open>.mp3\<close>: a title that is
  neither a string nor nullish has no \<open>replaceAll\<close> method.
\<close>

definition download_name :: "json option \<Rightarrow> error + jsstring" where
  "download_name title =
     (case nullish title (JStr (js ''podcast'')) of
        JStr t \<Rightarrow> Inr (map (\<lambda>c. if c = 32 then ch CHR ''-'' else c) t @ js ''.mp3'')
      | _ \<Rightarrow> Inl TypeError)"

text \<open>
  \<open>PodcastCard\<close>: the content goes through \<open>JSON.parse\<close> itself, outside any \<open>try\<close>.
  \<open>isPlaying\<close> is the component's local state.
\<close>

definition PodcastCard :: "message \<Rightarrow> bool \<Rightarrow> error + podcast_view" where
  "PodcastCard message isPlaying =
     (case JSON_parse (content message) of
        Inl e \<Rightarrow> Inl e
      | Inr data \<Rightarrow>
          let title = opt_prop data (js ''title'');
              audioUrl = opt_prop data (js ''audioUrl'');
              isGenerating = isStreaming message;
              hasError = (opt_prop data (js ''error'') \<noteq> None);
              label = (if hasError then PodcastError
                       else if isGenerating then GeneratingPodcast
                       else if isPlaying then NowPlayingPodcast else PodcastLabel);
              audio = (if truthy_opt audioUrl then audioUrl else None)
          in if \<not> hasError \<and> \<not> isGenerating
             then (case download_name title of
                     Inl e \<Rightarrow> Inl e
                   | Inr d \<Rightarrow> Inr \<lparr>pv_label = label, pv_download = Some d,
                                   pv_title = title, pv_audio = audio\<rparr>)
             else Inr \<lparr>pv_label = label, pv_download = None,
                       pv_title = title, pv_audio = audio\<rparr>)"

section \<open>The editor-team message\<close>









section \<open>The evaluator message\<close>

record evaluation_item =
  criterion :: jsstring
  evaluation :: json

text \<open>
  \<open>EvaluatorMessage\<close>: one block for each entry of the decoded value. The \<open>try\<close> around
  \<open>parseJSON\<close> never catches anything; \<open>Object.entries\<close> stands outside it.
\<close>

definition EvaluatorMessage :: "message \<Rightarrow> error + evaluation_item list" where
  "EvaluatorMessage message =
     (case entries (parseJSON (Str (content message)) (JObj [])) of
        Inl e \<Rightarrow> Inl e
      | Inr kvs \<Rightarrow> Inr (map (\<lambda>(k, v). \<lparr>criterion = k, evaluation = v\<rparr>) kvs))"

section \<open>The store\<close>

text \<open>
  The argument of \<open>setEditTeamCount\<close> is whatever \<open>.length\<close> gave: a number, or the
  value of a property named \<open>length\<close> (possibly \<open>undefined\<close>).
\<close>

datatype count = Count nat | Other "json option"

text \<open>
  Modelled from the spec: the part of the store (\<open>~/core/store\<close>, not among the
  sources) that the components write. The spec names the "currently-open session id"
  with \<open>openResearch(id)\<close> and \<open>closeResearch()\<close>, and the edit-team count with
  \<open>setEditTeamCount(n)\<close>, a single value. \<open>set_calls\<close> is not a field of the store:
  it logs the calls of \<open>setEditTeamCount\<close>, so that a theorem can count them.
\<close>

record store =
  openResearchId :: "jsstring option"
  editTeamCount :: count
  set_calls :: "count list"

definition openResearch :: "jsstring \<Rightarrow> store \<Rightarrow> store" where
  "openResearch researchId st = st\<lparr>openResearchId := Some researchId\<rparr>"

definition closeResearch :: "store \<Rightarrow> store" where
  "closeResearch st = st\<lparr>openResearchId := None\<rparr>"

definition setEditTeamCount :: "count \<Rightarrow> store \<Rightarrow> store" where
  "setEditTeamCount n st = st\<lparr>editTeamCount := n, set_calls := set_calls st @ [n]\<rparr>"

section \<open>The research card\<close>

text \<open>\<open>handleOpen\<close> of \<open>ResearchCard\<close>, without the scroll callback.\<close>

definition handleOpen :: "jsstring \<Rightarrow> store \<Rightarrow> store" where
  "handleOpen researchId st =
     (if openResearchId st = Some researchId then closeResearch st
      else openResearch researchId st)"

definition is_open :: "store \<Rightarrow> jsstring \<Rightarrow> bool" where
  "is_open st researchId = (openResearchId st = Some researchId)"

section \<open>The outline message\<close>

text \<open>
  What React keeps for one mounted \<open>OutlineMessage\<close>: the \<open>useMemo\<close> cell (the
  content it was computed for, the decoded value, and a number that identifies the
  computation, since every decode builds new objects), the dependencies of the last
  effect, and the number of decodes so far.
\<close>

text \<open>
  A dependency is compared with \<open>Object.is\<close>: an array or an object by reference (here:
  by the decode that built it), anything else by value (a number by its text).
\<close>

datatype ident = IUndefined | IValue json | IRef nat

record outline_hooks =
  memo :: "(jsstring \<times> json \<times> nat) option"
  effect_deps :: "(bool \<times> ident) option"
  allocs :: nat

definition mounted :: outline_hooks where
  "mounted = \<lparr>memo = None, effect_deps = None, allocs = 0\<rparr>"

fun ident_of :: "nat \<Rightarrow> json option \<Rightarrow> ident" where
  "ident_of g None = IUndefined"
| "ident_of g (Some (JArr xs)) = IRef g"
| "ident_of g (Some (JObj kvs)) = IRef g"
| "ident_of g (Some v) = IValue v"

text \<open>\<open>useMemo(() => parseJSON(message.content ?? "", {}), [message.content])\<close>\<close>

definition outline_memo :: "outline_hooks \<Rightarrow> jsstring \<Rightarrow> json \<times> nat \<times> outline_hooks" where
  "outline_memo h c =
     (let fresh = (parseJSON (Str c) (JObj []), allocs h,
                   h\<lparr>memo := Some (c, parseJSON (Str c) (JObj []), allocs h),
                     allocs := Suc (allocs h)\<rparr>)
      in case memo h of
           None \<Rightarrow> fresh
         | Some (c', v, g) \<Rightarrow> if c' = c then (v, g, h) else fresh)"

text \<open>\<open>v.length\<close> of a value that passed a truth test.\<close>

fun js_length :: "json \<Rightarrow> count" where
  "js_length (JArr xs) = Count (length xs)"
| "js_length (JStr s) = Count (length s)"
| "js_length (JObj kvs) = Other (map_of kvs (js ''length''))"
| "js_length v = Other None"

text \<open>The body of the effect.\<close>

definition outline_effect :: "bool \<Rightarrow> json option \<Rightarrow> store \<Rightarrow> store" where
  "outline_effect streaming sections st =
     (case sections of
        None \<Rightarrow> st
      | Some secs \<Rightarrow>
          if \<not> streaming \<and> truthy secs then setEditTeamCount (js_length secs) st else st)"

record section_view =
  sec_title :: "json option"
  sec_description :: "json option"

record outline_view =
  ov_title :: json
  ov_thought :: "json option"
  ov_sections :: "section_view list option"

definition outline_section :: "nat \<Rightarrow> json \<Rightarrow> error + section_view" where
  "outline_section i section =
     (if section = JNull then Inl TypeError
      else Inr \<lparr>sec_title = read_prop section (js ''title''),
                sec_description = read_prop section (js ''description'')\<rparr>)"

text \<open>What the component function computes from the decoded outline.\<close>

definition outline_body :: "json \<Rightarrow> error + outline_view" where
  "outline_body outline =
     (if outline = JNull then Inl TypeError
      else
        let title = nullish (read_prop outline (js ''title'')) (JStr (js ''Outline''));
            thought = (if truthy_opt (read_prop outline (js ''thought''))
                       then read_prop outline (js ''thought'') else None)
        in (case read_prop outline (js ''sections'') of
              None \<Rightarrow> Inr \<lparr>ov_title = title, ov_thought = thought, ov_sections = None\<rparr>
            | Some secs \<Rightarrow>
                if truthy secs
                then (case js_map outline_section secs of
                        Inl e \<Rightarrow> Inl e
                      | Inr svs \<Rightarrow> Inr \<lparr>ov_title = title, ov_thought = thought,
                                         ov_sections = Some svs\<rparr>)
                else Inr \<lparr>ov_title = title, ov_thought = thought, ov_sections = None\<rparr>))"

text \<open>
  One render of \<open>OutlineMessage\<close> and the effect that follows it. When the component
  function throws, nothing is committed and no effect runs. The effect runs after the
  first render and after each render whose dependencies
  \<open>[message.isStreaming, outline.sections]\<close> differ from those of the render before.
\<close>

definition OutlineMessage ::
    "outline_hooks \<Rightarrow> store \<Rightarrow> message \<Rightarrow> error + (outline_view \<times> outline_hooks \<times> store)" where
  "OutlineMessage h st message =
     (case outline_memo h (content message) of
        (outline, g, h1) \<Rightarrow>
          (case outline_body outline of
             Inl e \<Rightarrow> Inl e
           | Inr view \<Rightarrow>
               let sections = read_prop outline (js ''sections'');
                   deps = (isStreaming message, ident_of g sections)
               in if effect_deps h1 = Some deps then Inr (view, h1, st)
                  else Inr (view, h1\<lparr>effect_deps := Some deps\<rparr>,
                            outline_effect (isStreaming message) sections st)))"

section \<open>The reasoning panel\<close>

text \<open>
  The state of one mounted \<open>ThoughtBlock\<close>: the two \<open>useState\<close> cells and the
  dependencies of the last effect. \<open>collapse_count\<close> is not part of the component: it
  counts how often the effect called \<open>setIsOpen(false)\<close>.
\<close>

record thought_state =
  isOpen :: bool
  hasAutoCollapsed :: bool
  thought_deps :: "(bool \<times> bool) option"
  collapse_count :: nat

definition thought_init :: thought_state where
  "thought_init =
     \<lparr>isOpen = True, hasAutoCollapsed = False, thought_deps = None, collapse_count = 0\<rparr>"

text \<open>
  One render with the prop \<open>hasMainContent\<close> and its effect, which runs when
  \<open>[hasMainContent, hasAutoCollapsed]\<close> changed.
\<close>

definition render_pass :: "bool \<Rightarrow> thought_state \<Rightarrow> thought_state" where
  "render_pass hasMainContent s =
     (let deps = (hasMainContent, hasAutoCollapsed s) in
      if thought_deps s = Some deps then s
      else if hasMainContent \<and> \<not> hasAutoCollapsed s
      then s\<lparr>isOpen := False, hasAutoCollapsed := True, thought_deps := Some deps,
              collapse_count := Suc (collapse_count s)\<rparr>
      else s\<lparr>thought_deps := Some deps\<rparr>)"

text \<open>A state change in the effect makes React render once more.\<close>

definition ThoughtBlock :: "bool \<Rightarrow> thought_state \<Rightarrow> thought_state" where
  "ThoughtBlock hasMainContent s =
     (let s1 = render_pass hasMainContent s in
      if isOpen s1 \<noteq> isOpen s \<or> hasAutoCollapsed s1 \<noteq> hasAutoCollapsed s
      then render_pass hasMainContent s1 else s1)"

text \<open>
  What happens to a mounted panel: the parent renders it with a value of
  \<open>hasMainContent\<close>, or the user toggles it (\<open>onOpenChange\<close> is \<open>setIsOpen\<close>), which
  renders it again with the props it had.
\<close>

datatype thought_event = Render bool | Toggle bool

fun thought_step :: "thought_state \<Rightarrow> thought_event \<Rightarrow> thought_state" where
  "thought_step s (Render h) = ThoughtBlock h s"
| "thought_step s (Toggle b) =
     (case thought_deps s of
        None \<Rightarrow> s\<lparr>isOpen := b\<rparr>
      | Some (h, l) \<Rightarrow> ThoughtBlock h (s\<lparr>isOpen := b\<rparr>))"

definition thought_run :: "thought_state \<Rightarrow> thought_event list \<Rightarrow> thought_state" where
  "thought_run s evs = foldl thought_step s evs"

section \<open>Auxiliary notions for the proofs\<close>

text \<open>
  The key order of an object: an array-index key stands before every key that is not an
  array index, and before every array-index key of greater value.
\<close>

fun index_first :: "jsstring list \<Rightarrow> bool" where
  "index_first [] = True"
| "index_first (k # ks) =
     (if is_array_index k
      then (\<forall>k' \<in> set ks. is_array_index k' \<longrightarrow> digits_val k \<le> digits_val k')
           \<and> index_first ks
      else (\<forall>k' \<in> set ks. \<not> is_array_index k'))"

text \<open>
  Every object inside a value has pairwise different keys, in the key order of an
  object.
\<close>

fun wf_json :: "json \<Rightarrow> bool" where
  "wf_json (JArr xs) = (\<forall>x \<in> set xs. wf_json x)"
| "wf_json (JObj kvs) =
     (distinct (map fst kvs) \<and> index_first (map fst kvs) \<and> (\<forall>v \<in> snd ` set kvs. wf_json v))"
| "wf_json v = True"

fun wf_frame :: "frame \<Rightarrow> bool" where
  "wf_frame (FArr es) = wf_json (JArr es)"
| "wf_frame (FObj kvs ko) = wf_json (JObj kvs)"

fun wf_pstate :: "pstate \<Rightarrow> bool" where
  "wf_pstate (Run fs e) = (\<forall>f \<in> set fs. wf_frame f)"
| "wf_pstate (Done v) = wf_json v"
| "wf_pstate Bad = True"

text \<open>
  A mounted \<open>OutlineMessage\<close> rendered with one message after the other, as long as no
  render throws.
\<close>

fun renders :: "outline_hooks \<Rightarrow> store \<Rightarrow> message list \<Rightarrow> error + (outline_hooks \<times> store)" where
  "renders h st [] = Inr (h, st)"
| "renders h st (m # ms) =
     (case OutlineMessage h st m of
        Inl e \<Rightarrow> Inl e
      | Inr (v, h', st') \<Rightarrow> renders h' st' ms)"

text \<open>The memo cell holds the decoded value of the content it was computed for.\<close>

definition memo_ok :: "outline_hooks \<Rightarrow> bool" where
  "memo_ok h = (case memo h of None \<Rightarrow> True | Some (c, v, g) \<Rightarrow> v = parseJSON (Str c) (JObj []))"

text \<open>
  The states of a reasoning panel that can be reached: the dependencies of the last
  effect agree with the latch, and the latch is set once main content has been seen.
\<close>

definition thought_inv :: "thought_state \<Rightarrow> bool" where
  "thought_inv s =
     ((thought_deps s = None
        \<or> (\<exists>h. thought_deps s = Some (h, hasAutoCollapsed s) \<and> (h \<longrightarrow> hasAutoCollapsed s)))
      \<and> collapse_count s = (if hasAutoCollapsed s then 1 else 0))"

section \<open>Example inputs\<close>


definition researcher_message :: message where
  "researcher_message =
     \<lparr>msg_id = js ''m2'', role = Assistant, agent = Some (js ''researcher''),
      content = js ''Found three sources.'', reasoningContent = None, isStreaming = False\<rparr>"

definition podcast_message :: "jsstring \<Rightarrow> message" where
  "podcast_message c =
     \<lparr>msg_id = js ''m3'', role = Assistant, agent = Some (js ''podcast''),
      content = c, reasoningContent = None, isStreaming = True\<rparr>"


definition evaluator_message :: "jsstring \<Rightarrow> message" where
  "evaluator_message c =
     \<lparr>msg_id = js ''m5'', role = Assistant, agent = Some (js ''evaluator''),
      content = c, reasoningContent = None, isStreaming = False\<rparr>"

definition outline_message :: "jsstring \<Rightarrow> bool \<Rightarrow> message" where
  "outline_message c streaming =
     \<lparr>msg_id = js ''m6'', role = Assistant, agent = Some (js ''outline''),
      content = c, reasoningContent = None, isStreaming = streaming\<rparr>"

definition store0 :: store where
  "store0 = \<lparr>openResearchId = None, editTeamCount = Count 0, set_calls = []\<rparr>"

definition store_A_open :: store where
  "store_A_open = \<lparr>openResearchId = Some (js ''A''), editTeamCount = Count 0, set_calls = []\<rparr>"

text \<open>The hooks of an outline message after its first render, with streaming content.\<close>

definition hooks_after :: "jsstring \<Rightarrow> outline_hooks" where
  "hooks_after c =
     \<lparr>memo = Some (c, parseJSON (Str c) (JObj []), 0),
      effect_deps = Some (True, ident_of 0 (read_prop (parseJSON (Str c) (JObj [])) (js ''sections''))),
      allocs = 1\<rparr>"

section \<open>Properties of the decoder\<close>

lemmas eval_defs = js_def strip_fences_def trim_def replace_leading_def replace_trailing_def
  is_space_def suffix_def parse_def JSON_parse_def ready_char_def is_json_ws_def
  is_word_char_def is_digit_def unescape_def hex_val_def classify_def is_number_def
  incomplete_def wants_value_def wants_key_def js_set_def is_array_index_def digits_val_def

text \<open>
  C2: the truncated plan \<open>{"title":"Plan","steps":[{"title":"Step 1"\<close> decodes to the
  object with \<open>title\<close> "Plan" and a \<open>steps\<close> array whose first element is the object
  recovered so far; the result is not the fallback.
\<close>

theorem parseJSON_truncated_plan:
  "parseJSON (Str (js ''{\"title\":\"Plan\",\"steps\":[{\"title\":\"Step 1\"'')) (JObj [])
     = JObj [(js ''title'', JStr (js ''Plan'')),
             (js ''steps'', JArr [JObj [(js ''title'', JStr (js ''Step 1''))]])]
   \<and> parseJSON (Str (js ''{\"title\":\"Plan\",\"steps\":[{\"title\":\"Step 1\"'')) (JObj [])
     \<noteq> JObj []"
  by (simp add: eval_defs)

lemma num_is_zero_examples:
  "num_is_zero (js ''0'')" "num_is_zero (js ''-0.0'')" "num_is_zero (js ''0e5'')"
  "num_is_zero (js ''1e-400'')" "num_is_zero (js ''2e-324'')"
  "\<not> num_is_zero (js ''3e-324'')" "\<not> num_is_zero (js ''5e-324'')"
  "\<not> num_is_zero (js ''1'')" "\<not> num_is_zero (js ''-0.5E+3'')" "\<not> num_is_zero (js ''0.001'')"
  by (simp_all add: num_is_zero_def js_def digits_val_def is_digit_def Let_def)






subsection \<open>Code fences\<close>










lemma strip_fenced_example:
  "strip_fences (js ''```json\<newline>{\"a\":1}\<newline>```'') = js ''{\"a\":1}''"
  by (simp add: eval_defs)



















section \<open>Properties of the list item and the research card\<close>

text \<open>
  C10: an assistant message whose agent tag is none of the nine listed ones and whose
  id is not the start of a research session renders nothing, whatever its content.
\<close>

theorem MessageListItem_unlisted_agent:
  assumes "role message = Assistant"
    and "agent message \<notin> Some ` set (map js [''coordinator'', ''planner'', ''podcast'',
           ''feedback_handler'', ''generate_questions'', ''reporter'', ''outline'',
           ''editor_team'', ''evaluator''])"
    and "messageId \<notin> set researchIds"
  shows "MessageListItem researchIds messageId (Some message) = None"
  using assms by (simp add: MessageListItem_def)

theorem MessageListItem_unlisted_agent_witness:
  "role researcher_message = Assistant
   \<and> agent researcher_message \<notin> Some ` set (map js [''coordinator'', ''planner'', ''podcast'',
           ''feedback_handler'', ''generate_questions'', ''reporter'', ''outline'',
           ''editor_team'', ''evaluator''])
   \<and> js ''m2'' \<notin> set [js ''m1'']
   \<and> content researcher_message \<noteq> []
   \<and> MessageListItem [js ''m1''] (js ''m2'') (Some researcher_message) = None"
proof -
  have a: "role researcher_message = Assistant" by (simp add: researcher_message_def)
  have b: "agent researcher_message \<notin> Some ` set (map js [''coordinator'', ''planner'', ''podcast'',
           ''feedback_handler'', ''generate_questions'', ''reporter'', ''outline'',
           ''editor_team'', ''evaluator''])"
    by (simp add: researcher_message_def js_def)
  have c: "js ''m2'' \<notin> set [js ''m1'']" by (simp add: js_def)
  have d: "content researcher_message \<noteq> []" by (simp add: researcher_message_def js_def)
  from MessageListItem_unlisted_agent [OF a b c] a b c d show ?thesis by blast
qed

text \<open>
  C7: at most one research session is open; the card's toggle closes its own session when
  that is the open one and opens it otherwise; opening a session while another one is
  open leaves only the new one open.
\<close>

theorem single_open_research:
  "(is_open st a \<and> is_open st b \<longrightarrow> a = b)
   \<and> handleOpen r st = (if is_open st r then closeResearch st else openResearch r st)
   \<and> is_open (openResearch b st) b
   \<and> (a \<noteq> b \<longrightarrow> \<not> is_open (openResearch b st) a)
   \<and> (is_open st a \<and> a \<noteq> b \<longrightarrow> is_open (handleOpen b st) b \<and> \<not> is_open (handleOpen b st) a)
   \<and> (is_open st r \<longrightarrow> \<not> is_open (handleOpen r st) x)
   \<and> \<not> is_open (closeResearch st) x"
  by (auto simp: is_open_def handleOpen_def openResearch_def closeResearch_def)

theorem single_open_research_witness:
  "is_open store_A_open (js ''A'') \<and> js ''A'' \<noteq> js ''B''
   \<and> is_open (handleOpen (js ''B'') store_A_open) (js ''B'')
   \<and> \<not> is_open (handleOpen (js ''B'') store_A_open) (js ''A'')
   \<and> \<not> is_open (handleOpen (js ''A'') store_A_open) (js ''A'')"
proof -
  have a: "is_open store_A_open (js ''A'')" by (simp add: is_open_def store_A_open_def)
  have b: "js ''A'' \<noteq> js ''B''" by (simp add: js_def)
  from single_open_research [where st = store_A_open and a = "js ''A''" and b = "js ''B''"
         and r = "js ''A''" and x = "js ''A''"]
       a b
  show ?thesis by blast
qed

section \<open>Properties of the evaluator message\<close>

lemma insert_index_keys: "set (insert_index k v kvs) = insert (k, v) (set kvs)"
  by (induction kvs) (auto split: if_splits)

lemma insert_index_distinct:
  "k \<notin> fst ` set kvs \<Longrightarrow> distinct (map fst kvs) \<Longrightarrow> distinct (map fst (insert_index k v kvs))"
  by (induction kvs) (auto simp: insert_index_keys)

lemma js_set_keys: "k \<in> fst ` set kvs \<Longrightarrow> map fst (js_set k v kvs) = map fst kvs"
  by (induction kvs) (auto simp: js_set_def)

lemma js_set_values: "x \<in> set (js_set k v kvs) \<Longrightarrow> snd x = v \<or> x \<in> set kvs"
  by (auto simp: js_set_def insert_index_keys split: if_splits)

lemma index_first_append:
  "index_first ks \<Longrightarrow> \<not> is_array_index k \<Longrightarrow> index_first (ks @ [k])"
  by (induction ks) (auto split: if_splits)

lemma index_first_insert:
  assumes "index_first (map fst kvs)" and "is_array_index k"
  shows "index_first (map fst (insert_index k v kvs))"
  using assms
proof (induction kvs)
  case Nil
  then show ?case by simp
next
  case (Cons p kvs)
  obtain k' v' where p: "p = (k', v')" by (cases p)
  show ?case
  proof (cases "is_array_index k' \<and> digits_val k' < digits_val k")
    case True
    have keys: "fst ` set (insert_index k v kvs) = insert k (fst ` set kvs)"
      by (simp add: insert_index_keys)
    have "index_first (map fst (insert_index k v kvs))"
      using Cons True p by simp
    then show ?thesis
      using Cons.prems True p keys by auto
  next
    case False
    have "\<forall>x \<in> set (k' # map fst kvs). is_array_index x \<longrightarrow> digits_val k \<le> digits_val x"
    proof (cases "is_array_index k'")
      case True
      then have "digits_val k \<le> digits_val k'" using False by simp
      then show ?thesis using Cons.prems(1) True p by fastforce
    next
      case False
      then show ?thesis using Cons.prems(1) p by simp
    qed
    then show ?thesis using Cons.prems False p by simp
  qed
qed

lemma index_first_js_set:
  assumes "index_first (map fst kvs)"
  shows "index_first (map fst (js_set k v kvs))"
proof (cases "k \<in> fst ` set kvs")
  case True
  then show ?thesis using assms js_set_keys by simp
next
  case False
  then show ?thesis
    using assms by (simp add: js_set_def index_first_insert index_first_append)
qed

lemma js_set_wf:
  assumes "wf_json (JObj kvs)" and "wf_json v"
  shows "wf_json (JObj (js_set k v kvs))"
proof -
  have d: "distinct (map fst (js_set k v kvs))"
  proof (cases "k \<in> fst ` set kvs")
    case True
    then show ?thesis using assms js_set_keys by simp
  next
    case False
    then show ?thesis using assms by (simp add: js_set_def insert_index_distinct)
  qed
  have i: "index_first (map fst (js_set k v kvs))"
    using assms by (simp add: index_first_js_set)
  have "wf_json (snd x)" if "x \<in> set (js_set k v kvs)" for x
    using js_set_values [OF that] assms by auto
  with d i show ?thesis by simp
qed

lemma wf_json_empty_object: "wf_json (JObj [])"
  by simp

lemma wf_json_object_keys:
  "wf_json (JObj kvs) \<Longrightarrow> distinct (map fst kvs) \<and> index_first (map fst kvs)"
  by simp

declare wf_json.simps(2) [simp del]

lemma deliver_wf:
  assumes "wf_json v" and "\<forall>f \<in> set fs. wf_frame f"
  shows "wf_pstate (deliver v fs)"
proof (cases "(v, fs)" rule: deliver.cases)
  case (1 v')
  then show ?thesis using assms by simp
next
  case (2 v' es fs')
  then show ?thesis using assms by simp
next
  case (3 v' kvs k fs')
  then have "wf_json (JObj kvs)" using assms by simp
  then have "wf_json (JObj (js_set k v kvs))" using assms js_set_wf by blast
  then show ?thesis using 3 assms by simp
next
  case (4 v' kvs fs')
  then show ?thesis by simp
qed

lemma classify_wf: "classify w = Some v \<Longrightarrow> wf_json v"
  by (auto simp: classify_def split: if_splits)

lemma wf_frame_key: "wf_frame (FObj kvs ko) \<Longrightarrow> wf_frame (FObj kvs ko')"
  by simp

lemma pstep_wf: "wf_pstate s \<Longrightarrow> wf_pstate (pstep tol s t)"
proof (induction tol s t rule: pstep.induct)
  case (8 tol fs e s)
  then show ?case
    by (cases fs) (auto intro!: deliver_wf js_set_wf split: frame.splits option.splits)
next
  case (9 tol fs e w)
  then show ?case
    by (auto intro!: deliver_wf js_set_wf dest: classify_wf split: option.splits)
next
  case (11 tol fs e w)
  then show ?case
    by (auto intro!: deliver_wf js_set_wf dest: classify_wf split: option.splits)
qed (auto intro!: deliver_wf js_set_wf simp: wf_json_empty_object)

lemma foldl_pstep_wf: "wf_pstate s \<Longrightarrow> wf_pstate (foldl (pstep tol) s ts)"
  by (induction ts arbitrary: s) (simp_all add: pstep_wf)

lemma unwind_wf:
  "wf_json v \<Longrightarrow> \<forall>f \<in> set fs. wf_frame f \<Longrightarrow> wf_json (unwind v fs)"
proof (induction v fs rule: unwind.induct)
  case (3 v kvs k fs)
  have "wf_json (JObj kvs)" using 3 by simp
  then have "wf_json (JObj (js_set k v kvs))" using 3 js_set_wf by blast
  then show ?case using 3 by simp
qed simp_all

lemma frame_value_wf: "wf_frame f \<Longrightarrow> wf_json (frame_value f)"
  by (cases f) simp_all

lemma parse_wf: "parse s = Inr v \<Longrightarrow> wf_json v"
proof -
  assume p: "parse s = Inr v"
  have w: "wf_pstate (foldl (pstep True) (Run [] EValue) (lex Ready s))"
    by (rule foldl_pstep_wf) simp
  show ?thesis
  proof (cases "foldl (pstep True) (Run [] EValue) (lex Ready s)")
    case (Run fs e)
    then show ?thesis
      using p w by (cases fs) (auto simp: parse_def unwind_wf frame_value_wf)
  next
    case (Done v')
    then show ?thesis using p w by (simp add: parse_def)
  next
    case Bad
    then show ?thesis using p by (simp add: parse_def)
  qed
qed

lemma parseJSON_wf: "wf_json fallback \<Longrightarrow> wf_json (parseJSON j fallback)"
  by (cases j) (auto dest: parse_wf split: sum.splits)

text \<open>
  C8, as amended: when the content decodes to an object, the card has exactly one block
  for each property of the object (the keys are pairwise different) and no other block,
  in the key order of the object: array-index keys first, in ascending order, then the
  other keys; when the parser throws, the card has no block. A new key that is not an
  array index goes to the end of the object (insertion order), and assigning an existing
  key keeps the order.
\<close>

theorem EvaluatorMessage_blocks:
  "(parseJSON (Str (content m)) (JObj []) = JObj kvs \<longrightarrow>
      EvaluatorMessage m = Inr (map (\<lambda>(k, v). \<lparr>criterion = k, evaluation = v\<rparr>) kvs)
      \<and> distinct (map fst kvs) \<and> index_first (map fst kvs))
   \<and> (parse (strip_fences (content m)) = Inl e \<longrightarrow> EvaluatorMessage m = Inr [])
   \<and> (k \<notin> fst ` set kvs' \<and> \<not> is_array_index k \<longrightarrow> js_set k v kvs' = kvs' @ [(k, v)])
   \<and> (k \<in> fst ` set kvs' \<longrightarrow> map fst (js_set k v kvs') = map fst kvs')"
proof (intro conjI impI)
  assume d: "parseJSON (Str (content m)) (JObj []) = JObj kvs"
  then show "EvaluatorMessage m = Inr (map (\<lambda>(k, v). \<lparr>criterion = k, evaluation = v\<rparr>) kvs)"
    by (simp add: EvaluatorMessage_def)
  have w: "wf_json (parseJSON (Str (content m)) (JObj []))"
    by (rule parseJSON_wf) (rule wf_json_empty_object)
  then show "distinct (map fst kvs)" using d by (simp add: wf_json_object_keys)
  from w show "index_first (map fst kvs)" using d by (simp add: wf_json_object_keys)
next
  assume "parse (strip_fences (content m)) = Inl e"
  then show "EvaluatorMessage m = Inr []"
    by (simp add: EvaluatorMessage_def)
next
  assume "k \<notin> fst ` set kvs' \<and> \<not> is_array_index k"
  then show "js_set k v kvs' = kvs' @ [(k, v)]" by (simp add: js_set_def)
next
  assume "k \<in> fst ` set kvs'"
  then show "map fst (js_set k v kvs') = map fst kvs'" by (rule js_set_keys)
qed

text \<open>
  The claim as stated fails: in the payload \<open>{"b":"x","1":"y"}\<close> the key \<open>b\<close> is
  inserted first, and the card shows the block of \<open>1\<close> first, because an object lists
  its array-index keys before the others.
\<close>

theorem EvaluatorMessage_index_key_counterexample:
  "EvaluatorMessage (evaluator_message (js ''{\"b\":\"x\",\"1\":\"y\"}''))
     = Inr [\<lparr>criterion = js ''1'', evaluation = JStr (js ''y'')\<rparr>,
            \<lparr>criterion = js ''b'', evaluation = JStr (js ''x'')\<rparr>]"
  by (simp add: EvaluatorMessage_def evaluator_message_def eval_defs)

lemma evaluator_example:
  "parseJSON (Str (js ''{\"Relevance\":\"high\",\"Readability\":\"good\"}'')) (JObj [])
     = JObj [(js ''Relevance'', JStr (js ''high'')), (js ''Readability'', JStr (js ''good''))]"
  by (simp add: eval_defs)

lemma evaluator_garbage:
  "parse (strip_fences (js ''Relevance: high'')) = Inl SyntaxError"
  by (simp add: eval_defs)

theorem EvaluatorMessage_blocks_witness:
  "parseJSON (Str (content (evaluator_message (js ''{\"Relevance\":\"high\",\"Readability\":\"good\"}'')))) (JObj [])
     = JObj [(js ''Relevance'', JStr (js ''high'')), (js ''Readability'', JStr (js ''good''))]
   \<and> EvaluatorMessage (evaluator_message (js ''{\"Relevance\":\"high\",\"Readability\":\"good\"}''))
     = Inr [\<lparr>criterion = js ''Relevance'', evaluation = JStr (js ''high'')\<rparr>,
            \<lparr>criterion = js ''Readability'', evaluation = JStr (js ''good'')\<rparr>]
   \<and> parse (strip_fences (content (evaluator_message (js ''Relevance: high'')))) = Inl SyntaxError
   \<and> EvaluatorMessage (evaluator_message (js ''Relevance: high'')) = Inr []
   \<and> js ''b'' \<notin> fst ` set [(js ''a'', JNull)] \<and> \<not> is_array_index (js ''b'')
   \<and> js_set (js ''b'') JNull [(js ''a'', JNull)] = [(js ''a'', JNull), (js ''b'', JNull)]
   \<and> js ''a'' \<in> fst ` set [(js ''a'', JNull)]
   \<and> map fst (js_set (js ''a'') (JBool True) [(js ''a'', JNull)]) = [js ''a'']"
proof -
  have a: "parseJSON (Str (content (evaluator_message (js ''{\"Relevance\":\"high\",\"Readability\":\"good\"}'')))) (JObj [])
     = JObj [(js ''Relevance'', JStr (js ''high'')), (js ''Readability'', JStr (js ''good''))]"
    using evaluator_example by (simp add: evaluator_message_def)
  have b: "parse (strip_fences (content (evaluator_message (js ''Relevance: high'')))) = Inl SyntaxError"
    using evaluator_garbage by (simp add: evaluator_message_def)
  have c: "js ''b'' \<notin> fst ` set [(js ''a'', JNull)] \<and> \<not> is_array_index (js ''b'')"
    by (simp add: js_def is_array_index_def is_digit_def)
  have d: "js ''a'' \<in> fst ` set [(js ''a'', JNull)]" by simp
  from EvaluatorMessage_blocks [where m = "evaluator_message (js ''{\"Relevance\":\"high\",\"Readability\":\"good\"}'')"
         and kvs = "[(js ''Relevance'', JStr (js ''high'')), (js ''Readability'', JStr (js ''good''))]"
         and k = "js ''b''" and kvs' = "[(js ''a'', JNull)]" and v = JNull]
       EvaluatorMessage_blocks [where m = "evaluator_message (js ''Relevance: high'')"
         and e = SyntaxError and k = "js ''a''" and kvs' = "[(js ''a'', JNull)]" and v = "JBool True"]
       a b c d
  show ?thesis by simp
qed

section \<open>Properties of the editor-team message\<close>

lemma map_err_all:
  assumes "\<forall>x \<in> set ys. \<exists>y. f x = Inr y"
  shows "\<exists>zs. map_err f ys = Inr zs \<and> length zs = length ys
              \<and> (\<forall>i < length ys. f (ys ! i) = Inr (zs ! i))"
  using assms
proof (induction ys)
  case Nil
  then show ?case by simp
next
  case (Cons x ys)
  then obtain y where y: "f x = Inr y" by auto
  from Cons obtain zs where zs: "map_err f ys = Inr zs" "length zs = length ys"
      "\<forall>i < length ys. f (ys ! i) = Inr (zs ! i)"
    by auto
  have "\<forall>i < length (x # ys). f ((x # ys) ! i) = Inr ((y # zs) ! i)"
    using y zs by (auto simp: nth_Cons split: nat.splits)
  then show ?case using y zs by simp
qed












section \<open>Properties of the outline message\<close>

lemma memo_ok_mounted: "memo_ok mounted"
  by (simp add: memo_ok_def mounted_def)

lemma outline_memo_ok:
  assumes "memo_ok h" and "outline_memo h c = (v, g, h')"
  shows "v = parseJSON (Str c) (JObj []) \<and> memo h' = Some (c, v, g)
         \<and> effect_deps h' = effect_deps h \<and> memo_ok h'"
  using assms
  by (auto simp: outline_memo_def memo_ok_def Let_def split: option.splits if_splits)

lemma outline_effect_streaming: "outline_effect True sections st = st"
  by (simp add: outline_effect_def split: option.splits)

lemma OutlineMessage_step:
  assumes ok: "memo_ok h" and r: "OutlineMessage h st m = Inr (v, h', st')"
  shows "memo_ok h' \<and> (\<exists>i. effect_deps h' = Some (isStreaming m, i))
         \<and> (isStreaming m \<longrightarrow> st' = st)"
proof -
  obtain outline g h1 where m: "outline_memo h (content m) = (outline, g, h1)"
    by (cases "outline_memo h (content m)") auto
  from outline_memo_ok [OF ok m] have ok1: "memo_ok h1" by simp
  have ok2: "memo_ok (h1\<lparr>effect_deps := d\<rparr>)" for d
    using ok1 by (simp add: memo_ok_def)
  from r m show ?thesis
    using ok1 ok2
    by (auto simp: OutlineMessage_def Let_def outline_effect_streaming
        split: sum.splits if_splits)
qed

lemma renders_last:
  assumes "memo_ok h" and "renders h st (ms @ [m]) = Inr (h1, st1)"
  shows "memo_ok h1 \<and> (\<exists>i. effect_deps h1 = Some (isStreaming m, i))"
  using assms
proof (induction ms arbitrary: h st)
  case Nil
  then obtain v h' st' where r: "OutlineMessage h st m = Inr (v, h', st')"
    by (auto split: sum.splits)
  with Nil have "h1 = h'" by simp
  then show ?case using OutlineMessage_step [OF Nil(1) r] by simp
next
  case (Cons a ms)
  then obtain v h' st' where r: "OutlineMessage h st a = Inr (v, h', st')"
    by (auto split: sum.splits)
  have "memo_ok h'" using OutlineMessage_step [OF Cons.prems(1) r] by simp
  moreover have "renders h' st' (ms @ [m]) = Inr (h1, st1)"
    using Cons.prems(2) r by simp
  ultimately show ?case using Cons.IH by blast
qed

lemma outline_body_sections:
  assumes "map_of kvs (js ''sections'') = Some (JArr xs)" and "JNull \<notin> set xs"
  shows "\<exists>view. outline_body (JObj kvs) = Inr view"
proof -
  have "\<forall>i < length xs. xs ! i \<noteq> JNull"
    using assms(2) nth_mem by metis
  then have "\<forall>p \<in> set (enumerate 0 xs). \<exists>y. (\<lambda>(i, x). outline_section i x) p = Inr y"
    by (auto simp: outline_section_def in_set_enumerate_eq)
  from map_err_all [OF this] obtain svs where
    "map_err (\<lambda>(i, x). outline_section i x) (enumerate 0 xs) = Inr svs" by blast
  then show ?thesis using assms(1) by (simp add: outline_body_def js_map_def)
qed

lemma setEditTeamCount_fields:
  "editTeamCount (setEditTeamCount n st) = n"
  "set_calls (setEditTeamCount n st) = set_calls st @ [n]"
  by (simp_all add: setEditTeamCount_def)

lemma OutlineMessage_completion:
  assumes ok: "memo_ok h1" and d: "effect_deps h1 = Some (True, i)"
    and fin: "\<not> isStreaming md"
    and dec: "parseJSON (Str (content md)) (JObj []) = JObj kvs"
    and secs: "map_of kvs (js ''sections'') = Some (JArr xs)" and nn: "JNull \<notin> set xs"
  shows "\<exists>v h2. OutlineMessage h1 st1 md = Inr (v, h2, setEditTeamCount (Count (length xs)) st1)
           \<and> (\<forall>m' st. content m' = content md \<and> \<not> isStreaming m' \<longrightarrow>
                 OutlineMessage h2 st m' = Inr (v, h2, st))"
proof -
  obtain outline g h1' where m: "outline_memo h1 (content md) = (outline, g, h1')"
    by (cases "outline_memo h1 (content md)") auto
  from outline_memo_ok [OF ok m] dec have
    o: "outline = JObj kvs" and mm: "memo h1' = Some (content md, JObj kvs, g)"
    and dd: "effect_deps h1' = Some (True, i)"
    using d by simp_all
  from outline_body_sections [OF secs nn] obtain view where
    b: "outline_body (JObj kvs) = Inr view" by blast
  let ?h2 = "h1'\<lparr>effect_deps := Some (False, IRef g)\<rparr>"
  have first: "OutlineMessage h1 st1 md = Inr (view, ?h2, setEditTeamCount (Count (length xs)) st1)"
    using m o b dd fin secs by (simp add: OutlineMessage_def outline_effect_def)
  have again: "OutlineMessage ?h2 st m' = Inr (view, ?h2, st)"
    if "content m' = content md \<and> \<not> isStreaming m'" for m' st
  proof -
    have "outline_memo ?h2 (content m') = (JObj kvs, g, ?h2)"
      using mm that by (simp add: outline_memo_def)
    then show ?thesis using b secs that by (simp add: OutlineMessage_def)
  qed
  from first again show ?thesis by blast
qed

lemma renders_fixpoint:
  assumes "OutlineMessage h st m = Inr (v, h, st)"
  shows "renders h st (replicate n m) = Inr (h, st)"
  using assms by (induction n) simp_all

text \<open>
  C4: a mounted outline message was rendered, last with \<open>isStreaming\<close> true; it is
  then rendered completed, with content that decodes to an object whose \<open>sections\<close>
  is an array of \<open>n\<close> sections (no element is \<open>null\<close>, as the declared type of the
  payload requires). That render calls \<open>setEditTeamCount(n)\<close> exactly once, so the
  store's count is \<open>n\<close>, and every later render of the completed message with the same
  content changes neither the store nor the hooks: no further call.
\<close>

theorem outline_sets_count_once:
  assumes "renders mounted st0 (ms @ [m]) = Inr (h1, st1)" and "isStreaming m"
    and "\<not> isStreaming md"
    and "parseJSON (Str (content md)) (JObj []) = JObj kvs"
    and "map_of kvs (js ''sections'') = Some (JArr xs)" and "JNull \<notin> set xs"
  shows "\<exists>v h2 st2. OutlineMessage h1 st1 md = Inr (v, h2, st2)
           \<and> editTeamCount st2 = Count (length xs)
           \<and> set_calls st2 = set_calls st1 @ [Count (length xs)]
           \<and> (\<forall>n. renders h2 st2 (replicate n md) = Inr (h2, st2))
           \<and> (\<forall>m'. content m' = content md \<and> \<not> isStreaming m' \<longrightarrow>
                 OutlineMessage h2 st2 m' = Inr (v, h2, st2))"
proof -
  from renders_last [OF memo_ok_mounted assms(1)] assms(2) obtain i where
    ok: "memo_ok h1" and d: "effect_deps h1 = Some (True, i)" by auto
  from OutlineMessage_completion [OF ok d assms(3) assms(4) assms(5) assms(6), of st1]
  obtain v h2 where
    r: "OutlineMessage h1 st1 md = Inr (v, h2, setEditTeamCount (Count (length xs)) st1)"
    and f: "\<forall>m' st. content m' = content md \<and> \<not> isStreaming m' \<longrightarrow>
                 OutlineMessage h2 st m' = Inr (v, h2, st)"
    by blast
  let ?st2 = "setEditTeamCount (Count (length xs)) st1"
  have "OutlineMessage h2 ?st2 md = Inr (v, h2, ?st2)"
    using f assms(3) by simp
  then have "\<forall>n. renders h2 ?st2 (replicate n md) = Inr (h2, ?st2)"
    using renders_fixpoint by blast
  then show ?thesis using r f by (auto simp: setEditTeamCount_fields)
qed

lemmas render_defs = OutlineMessage_def outline_memo_def outline_body_def outline_section_def
  outline_effect_def setEditTeamCount_def js_map_def hooks_after_def outline_message_def
  store0_def mounted_def

lemma outline_streaming_example:
  "parseJSON (Str (js ''{\"sections\":[{},{}'')) (JObj [])
     = JObj [(js ''sections'', JArr [JObj [], JObj []])]"
  by (simp add: eval_defs)

lemma outline_done_example:
  "parseJSON (Str (js ''{\"sections\":[{},{},{}]}'')) (JObj [])
     = JObj [(js ''sections'', JArr [JObj [], JObj [], JObj []])]"
  by (simp add: eval_defs)

lemma outline_first_render:
  "renders mounted store0 ([] @ [outline_message (js ''{\"sections\":[{},{}'') True])
     = Inr (hooks_after (js ''{\"sections\":[{},{}''), store0)"
  apply (simp del: parseJSON.simps add: outline_streaming_example render_defs)
  apply (simp add: js_def)
  done

theorem outline_sets_count_once_witness:
  "renders mounted store0 ([] @ [outline_message (js ''{\"sections\":[{},{}'') True])
     = Inr (hooks_after (js ''{\"sections\":[{},{}''), store0)
   \<and> isStreaming (outline_message (js ''{\"sections\":[{},{}'') True)
   \<and> \<not> isStreaming (outline_message (js ''{\"sections\":[{},{},{}]}'') False)
   \<and> parseJSON (Str (content (outline_message (js ''{\"sections\":[{},{},{}]}'') False))) (JObj [])
       = JObj [(js ''sections'', JArr [JObj [], JObj [], JObj []])]
   \<and> map_of [(js ''sections'', JArr [JObj [], JObj [], JObj []])] (js ''sections'')
       = Some (JArr [JObj [], JObj [], JObj []])
   \<and> JNull \<notin> set [JObj [], JObj [], JObj []]
   \<and> (\<exists>v h2 st2.
         OutlineMessage (hooks_after (js ''{\"sections\":[{},{}'')) store0
           (outline_message (js ''{\"sections\":[{},{},{}]}'') False) = Inr (v, h2, st2)
         \<and> editTeamCount st2 = Count 3 \<and> set_calls st2 = [Count 3]
         \<and> renders h2 st2 (replicate 5 (outline_message (js ''{\"sections\":[{},{},{}]}'') False))
             = Inr (h2, st2))"
proof -
  have a: "renders mounted store0 ([] @ [outline_message (js ''{\"sections\":[{},{}'') True])
     = Inr (hooks_after (js ''{\"sections\":[{},{}''), store0)"
    by (rule outline_first_render)
  have b: "isStreaming (outline_message (js ''{\"sections\":[{},{}'') True)"
    by (simp add: outline_message_def)
  have c: "\<not> isStreaming (outline_message (js ''{\"sections\":[{},{},{}]}'') False)"
    by (simp add: outline_message_def)
  have d: "parseJSON (Str (content (outline_message (js ''{\"sections\":[{},{},{}]}'') False))) (JObj [])
       = JObj [(js ''sections'', JArr [JObj [], JObj [], JObj []])]"
    using outline_done_example by (simp del: parseJSON.simps add: outline_message_def)
  have e: "map_of [(js ''sections'', JArr [JObj [], JObj [], JObj []])] (js ''sections'')
       = Some (JArr [JObj [], JObj [], JObj []])"
    by simp
  have f: "JNull \<notin> set [JObj [], JObj [], JObj []]" by simp
  have g: "set_calls store0 = []" by (simp add: store0_def)
  from outline_sets_count_once [OF a b c d e f] obtain v h2 st2 where
    "OutlineMessage (hooks_after (js ''{\"sections\":[{},{}'')) store0
           (outline_message (js ''{\"sections\":[{},{},{}]}'') False) = Inr (v, h2, st2)"
    "editTeamCount st2 = Count 3" "set_calls st2 = [Count 3]"
    "renders h2 st2 (replicate 5 (outline_message (js ''{\"sections\":[{},{},{}]}'') False))
             = Inr (h2, st2)"
    using g by auto
  then have "\<exists>v h2 st2.
         OutlineMessage (hooks_after (js ''{\"sections\":[{},{}'')) store0
           (outline_message (js ''{\"sections\":[{},{},{}]}'') False) = Inr (v, h2, st2)
         \<and> editTeamCount st2 = Count 3 \<and> set_calls st2 = [Count 3]
         \<and> renders h2 st2 (replicate 5 (outline_message (js ''{\"sections\":[{},{},{}]}'') False))
             = Inr (h2, st2)"
    by blast
  with a b c d e f show ?thesis by blast
qed

section \<open>Properties of the reasoning panel\<close>

lemma thought_inv_init: "thought_inv thought_init"
  by (simp add: thought_inv_def thought_init_def)

lemma ThoughtBlock_inv: "thought_inv s \<Longrightarrow> thought_inv (ThoughtBlock h s)"
  by (auto simp: thought_inv_def ThoughtBlock_def render_pass_def Let_def)

lemma thought_inv_isOpen: "thought_inv s \<Longrightarrow> thought_inv (s\<lparr>isOpen := b\<rparr>)"
  by (simp add: thought_inv_def)

lemma thought_step_inv: "thought_inv s \<Longrightarrow> thought_inv (thought_step s ev)"
proof (cases ev)
  case (Render h)
  assume "thought_inv s"
  then show ?thesis using Render by (simp add: ThoughtBlock_inv)
next
  case (Toggle b)
  assume "thought_inv s"
  then show ?thesis using Toggle
    by (auto simp: ThoughtBlock_inv thought_inv_isOpen split: option.splits)
qed

lemma thought_run_inv: "thought_inv s \<Longrightarrow> thought_inv (thought_run s evs)"
  unfolding thought_run_def
  by (induction evs arbitrary: s) (simp_all add: thought_step_inv)

lemma ThoughtBlock_first_content:
  assumes "thought_inv s" and "\<not> hasAutoCollapsed s"
  shows "\<not> isOpen (ThoughtBlock True s) \<and> hasAutoCollapsed (ThoughtBlock True s)
         \<and> collapse_count (ThoughtBlock True s) = 1"
  using assms by (auto simp: thought_inv_def ThoughtBlock_def render_pass_def Let_def)

lemma ThoughtBlock_latched:
  assumes "hasAutoCollapsed s"
  shows "hasAutoCollapsed (ThoughtBlock h s) \<and> isOpen (ThoughtBlock h s) = isOpen s
         \<and> collapse_count (ThoughtBlock h s) = collapse_count s"
  using assms by (auto simp: ThoughtBlock_def render_pass_def Let_def)

lemma thought_step_latched:
  assumes "hasAutoCollapsed s"
  shows "hasAutoCollapsed (thought_step s ev)
         \<and> collapse_count (thought_step s ev) = collapse_count s"
  using assms by (cases ev) (auto simp: ThoughtBlock_latched split: option.splits)

lemma toggle_latched:
  assumes "hasAutoCollapsed s"
  shows "isOpen (thought_step s (Toggle b)) = b \<and> hasAutoCollapsed (thought_step s (Toggle b))"
  using assms by (auto simp: ThoughtBlock_latched split: option.splits)

lemma renders_latched:
  assumes "hasAutoCollapsed s"
  shows "isOpen (thought_run s (map Render hs)) = isOpen s
         \<and> hasAutoCollapsed (thought_run s (map Render hs))"
  using assms unfolding thought_run_def
  by (induction hs arbitrary: s) (simp_all add: ThoughtBlock_latched)

text \<open>
  C5: the panel starts open with the latch unset. From every state it can reach: while
  the latch is unset, a render with main content closes the panel and sets the latch (the
  first and only forced close); once the latch is set, no event unsets it or forces the
  panel closed again, a render leaves \<open>open\<close> as it is, and after the user reopens the
  panel it stays open through any further renders, whatever \<open>hasMainContent\<close> is. The
  effect closes the panel at most once.
\<close>

theorem reasoning_panel_collapses_once:
  assumes "s = thought_run thought_init evs"
  shows "isOpen thought_init \<and> \<not> hasAutoCollapsed thought_init
    \<and> (\<not> hasAutoCollapsed s \<longrightarrow>
          \<not> isOpen (thought_step s (Render True))
          \<and> hasAutoCollapsed (thought_step s (Render True))
          \<and> collapse_count (thought_step s (Render True)) = 1)
    \<and> (hasAutoCollapsed s \<longrightarrow>
          hasAutoCollapsed (thought_step s ev)
          \<and> collapse_count (thought_step s ev) = collapse_count s
          \<and> isOpen (thought_step s (Render h)) = isOpen s
          \<and> isOpen (thought_run (thought_step s (Toggle True)) (map Render hs)))
    \<and> collapse_count s \<le> 1"
proof -
  have inv: "thought_inv s"
    using assms by (simp add: thought_run_inv thought_inv_init)
  have a: "isOpen thought_init \<and> \<not> hasAutoCollapsed thought_init"
    by (simp add: thought_init_def)
  have b: "\<not> hasAutoCollapsed s \<longrightarrow>
          \<not> isOpen (thought_step s (Render True))
          \<and> hasAutoCollapsed (thought_step s (Render True))
          \<and> collapse_count (thought_step s (Render True)) = 1"
    using inv ThoughtBlock_first_content by simp
  have c: "hasAutoCollapsed s \<longrightarrow>
          hasAutoCollapsed (thought_step s ev)
          \<and> collapse_count (thought_step s ev) = collapse_count s
          \<and> isOpen (thought_step s (Render h)) = isOpen s
          \<and> isOpen (thought_run (thought_step s (Toggle True)) (map Render hs))"
  proof
    assume l: "hasAutoCollapsed s"
    have "isOpen (thought_run (thought_step s (Toggle True)) (map Render hs))"
      using toggle_latched [OF l, of True] renders_latched [of "thought_step s (Toggle True)" hs]
      by simp
    then show "hasAutoCollapsed (thought_step s ev)
          \<and> collapse_count (thought_step s ev) = collapse_count s
          \<and> isOpen (thought_step s (Render h)) = isOpen s
          \<and> isOpen (thought_run (thought_step s (Toggle True)) (map Render hs))"
      using l thought_step_latched [OF l, of ev] ThoughtBlock_latched [OF l, of h] by simp
  qed
  have d: "collapse_count s \<le> 1"
    using inv by (simp add: thought_inv_def)
  from a b c d show ?thesis by blast
qed

lemma run_eval:
  "thought_run thought_init [Render False] =
     \<lparr>isOpen = True, hasAutoCollapsed = False, thought_deps = Some (False, False), collapse_count = 0\<rparr>"
  "thought_run thought_init [Render False, Render True] =
     \<lparr>isOpen = False, hasAutoCollapsed = True, thought_deps = Some (True, True), collapse_count = 1\<rparr>"
  by (simp_all add: thought_run_def thought_init_def ThoughtBlock_def render_pass_def Let_def)

theorem reasoning_panel_collapses_once_witness:
  "\<not> hasAutoCollapsed (thought_run thought_init [Render False])
   \<and> \<not> isOpen (thought_step (thought_run thought_init [Render False]) (Render True))
   \<and> hasAutoCollapsed (thought_run thought_init [Render False, Render True])
   \<and> isOpen (thought_run (thought_step (thought_run thought_init [Render False, Render True])
                (Toggle True)) (map Render [False, True, False, True]))
   \<and> collapse_count (thought_step (thought_run thought_init [Render False, Render True])
                (Render True)) = 1"
proof -
  have a: "\<not> hasAutoCollapsed (thought_run thought_init [Render False])"
    by (simp add: run_eval)
  have b: "hasAutoCollapsed (thought_run thought_init [Render False, Render True])"
    by (simp add: run_eval)
  have c: "collapse_count (thought_run thought_init [Render False, Render True]) = 1"
    by (simp add: run_eval)
  from reasoning_panel_collapses_once [OF refl, of "[Render False]"]
       reasoning_panel_collapses_once [OF refl, of "[Render False, Render True]" "Render True" _
         "[False, True, False, True]"]
       a b c
  show ?thesis by simp
qed

section \<open>Properties of the podcast card\<close>

text \<open>
  C1 fails on the code: a podcast message always gets its card, and the card decodes
  the content with \<open>JSON.parse\<close> outside any \<open>try\<close>, so an empty content, or a
  content that streaming has cut short, makes the render throw a \<open>SyntaxError\<close>. The
  same truncated content goes through \<open>parseJSON\<close> without an exception.
\<close>

theorem PodcastCard_throws:
  "MessageListItem [] (js ''m3'') (Some (podcast_message []))
     = Some (EPodcastCard (podcast_message []))
   \<and> PodcastCard (podcast_message []) False = Inl SyntaxError
   \<and> MessageListItem [] (js ''m3'') (Some (podcast_message (js ''{\"title\":\"Weekly'')))
     = Some (EPodcastCard (podcast_message (js ''{\"title\":\"Weekly'')))
   \<and> PodcastCard (podcast_message (js ''{\"title\":\"Weekly'')) False = Inl SyntaxError
   \<and> parseJSON (Str (js ''{\"title\":\"Weekly'')) (JObj [])
     = JObj [(js ''title'', JStr (js ''Weekly''))]"
  by (simp add: MessageListItem_def PodcastCard_def podcast_message_def eval_defs)

end
